theory Spec2Isabelle
  imports Complex_Main "HOL-Library.Sublist"
begin

section \<open>The 6581 integrator of reSIDfp (Integrator6581.h)\<close>

text \<open>
  The class \<^verbatim>\<open>Integrator6581\<close> holds three borrowed lookup tables, one cached
  parameter, two state scalars and two calibration constants. Its two operations are
  \<^verbatim>\<open>setVw\<close> and \<^verbatim>\<open>solve\<close>.

  Numbers. The C++ type \<^verbatim>\<open>float\<close> is modelled by the real numbers: every
  arithmetic operation of the source is taken as exact. Rounding to 24 bits, overflow to
  infinity and NaN are outside the model. The integer constants \<^verbatim>\<open>1 << 16\<close> and
  \<^verbatim>\<open>1 << 15\<close> are written 65536 and 32768.

  Tables. The class \<^verbatim>\<open>LUT\<close> of \<^verbatim>\<open>InterpolatedLUT.h\<close> is an external
  collaborator; the only member the integrator calls is \<^verbatim>\<open>output\<close>, a pure function
  from float to float. A table is therefore a value carrying that function (the selector
  \<open>output_lut\<close>, since \<open>output\<close> is a reserved word), and the three tables are
  parameters of every statement below.

  Assertions. \<^verbatim>\<open>solve\<close> contains five \<^verbatim>\<open>assert\<close>s. A failing assertion
  aborts the program; the model returns it as an error value that names the assertion.
  This is the code as written, built with assertions enabled. (When \<^verbatim>\<open>NDEBUG\<close> is
  defined the assertions expand to nothing and every call returns what the last branch
  of \<open>solve\<close> below returns.)
\<close>

type_synonym float = real

datatype LUT = LUT (output_lut: "float \<Rightarrow> float")

record integrator =
  vcr_kVg :: LUT
  vcr_n_Ids_term :: LUT
  opamp_rev :: LUT
  Vddt_Vw_2 :: float
  vx :: float
  vc :: float
  kVddt :: float
  n_snake :: float

text \<open>The constructor (lines 170-179): tables and constants stored, the rest zero.\<close>

definition Integrator6581 :: "LUT \<Rightarrow> LUT \<Rightarrow> LUT \<Rightarrow> float \<Rightarrow> float \<Rightarrow> integrator" where
  "Integrator6581 vcr_kVg0 vcr_n_Ids_term0 opamp_rev0 kVddt0 n_snake0 =
     \<lparr> vcr_kVg = vcr_kVg0,
       vcr_n_Ids_term = vcr_n_Ids_term0,
       opamp_rev = opamp_rev0,
       Vddt_Vw_2 = 0,
       vx = 0,
       vc = 0,
       kVddt = kVddt0,
       n_snake = n_snake0 \<rparr>"

text \<open>\<^verbatim>\<open>void setVw(float Vw) { Vddt_Vw_2 = (kVddt - Vw) * (kVddt - Vw); }\<close> (line 181).\<close>

definition setVw :: "integrator \<Rightarrow> float \<Rightarrow> integrator" where
  "setVw s Vw = s\<lparr>Vddt_Vw_2 := (kVddt s - Vw) * (kVddt s - Vw)\<rparr>"

subsection \<open>The local constants of solve, line by line\<close>

text \<open>
  Each local \<^verbatim>\<open>const float\<close> of \<^verbatim>\<open>solve\<close> (lines 204-230) is a function of
  the state before the call and of the argument \<open>vi\<close>, under the name it has in the source.
\<close>

definition Vgst :: "integrator \<Rightarrow> float" where
  "Vgst s = kVddt s - vx s"

definition Vgdt :: "integrator \<Rightarrow> float \<Rightarrow> float" where
  "Vgdt s vi = kVddt s - vi"

definition Vgst_2 :: "integrator \<Rightarrow> float" where
  "Vgst_2 s = Vgst s * Vgst s"

definition Vgdt_2 :: "integrator \<Rightarrow> float \<Rightarrow> float" where
  "Vgdt_2 s vi = Vgdt s vi * Vgdt s vi"

definition n_I_snake :: "integrator \<Rightarrow> float \<Rightarrow> float" where
  "n_I_snake s vi = n_snake s * (Vgst_2 s - Vgdt_2 s vi)"

definition kVg :: "integrator \<Rightarrow> float \<Rightarrow> float" where
  "kVg s vi = output_lut (vcr_kVg s) (((Vddt_Vw_2 s + Vgdt_2 s vi) / 2) / 65536)"

definition Vgs :: "integrator \<Rightarrow> float \<Rightarrow> float" where
  "Vgs s vi = (if vx s < kVg s vi then kVg s vi - vx s else 0)"

definition Vgd :: "integrator \<Rightarrow> float \<Rightarrow> float" where
  "Vgd s vi = (if vi < kVg s vi then kVg s vi - vi else 0)"

definition n_I_vcr :: "integrator \<Rightarrow> float \<Rightarrow> float" where
  "n_I_vcr s vi = output_lut (vcr_n_Ids_term s) (Vgs s vi) - output_lut (vcr_n_Ids_term s) (Vgd s vi)"

text \<open>The value of \<^verbatim>\<open>vc\<close> after \<^verbatim>\<open>vc += (n_I_snake / 65536.f) + n_I_vcr;\<close> (line 227).\<close>

definition vc_new :: "integrator \<Rightarrow> float \<Rightarrow> float" where
  "vc_new s vi = vc s + ((n_I_snake s vi / 65536) + n_I_vcr s vi)"

definition tmp :: "integrator \<Rightarrow> float \<Rightarrow> float" where
  "tmp s vi = (vc_new s vi / 2) + 32768"

text \<open>The value of \<^verbatim>\<open>vx\<close> after \<^verbatim>\<open>vx = opamp_rev->output(tmp);\<close> (line 232).\<close>

definition vx_new :: "integrator \<Rightarrow> float \<Rightarrow> float" where
  "vx_new s vi = output_lut (opamp_rev s) (tmp s vi)"

subsection \<open>solve\<close>

text \<open>The five assertions of \<^verbatim>\<open>solve\<close>, in source order (lines 197, 201, 219, 221, 231).\<close>

datatype assertion = Assert_vx | Assert_vi | Assert_Vgs | Assert_Vgd | Assert_tmp

text \<open>
  \<^verbatim>\<open>float Integrator6581::solve(float vi) const\<close> (lines 194-236). The result is
  either the assertion that aborted the call, or the returned \<open>vo\<close> together with the
  state after the call. The two \<^verbatim>\<open>mutable\<close> members \<open>vc\<close> and \<open>vx\<close> are
  the only ones assigned.
\<close>

definition solve :: "integrator \<Rightarrow> float \<Rightarrow> assertion + (float \<times> integrator)" where
  "solve s vi =
     (if \<not> vx s < kVddt s then Inl Assert_vx
      else if \<not> vi < kVddt s then Inl Assert_vi
      else if \<not> Vgs s vi < 65536 then Inl Assert_Vgs
      else if \<not> Vgd s vi < 65536 then Inl Assert_Vgd
      else if \<not> tmp s vi < 65536 then Inl Assert_tmp
      else Inr (vx_new s vi - vc_new s vi,
                s\<lparr>vc := vc_new s vi, vx := vx_new s vi\<rparr>))"

subsection \<open>solve as the specification words it\<close>

text \<open>
  The eight steps of the specification's algorithm for \<open>solve\<close>, written from its
  words (squares as squares, the clamp as \<open>max\<close>, no domain checks), to be compared with
  \<open>solve\<close> above.
\<close>

definition spec_solve :: "integrator \<Rightarrow> float \<Rightarrow> float \<times> integrator" where
  "spec_solve s vi =
     (let gst = kVddt s - vx s;
          gdt = kVddt s - vi;
          snake = n_snake s * (gst\<^sup>2 - gdt\<^sup>2);
          kvg = output_lut (vcr_kVg s) (((Vddt_Vw_2 s + gdt\<^sup>2) / 2) / 65536);
          gs = max (kvg - vx s) 0;
          gd = max (kvg - vi) 0;
          vcr = output_lut (vcr_n_Ids_term s) gs - output_lut (vcr_n_Ids_term s) gd;
          vc1 = vc s + snake / 65536 + vcr;
          vx1 = output_lut (opamp_rev s) (vc1 / 2 + 32768)
      in (vx1 - vc1, s\<lparr>vc := vc1, vx := vx1\<rparr>))"

subsection \<open>Sequences of calls\<close>

text \<open>
  The owning filter stage calls \<open>setVw\<close> and \<open>solve\<close> one after the other on the same
  object. \<open>run\<close> performs a list of calls from a state: it collects the values returned by
  the \<open>solve\<close> calls and ends with the final state, or with the assertion that aborted the
  program (the outputs returned before the abort are kept).
\<close>

datatype call = SetVw float | Solve float

fun run :: "integrator \<Rightarrow> call list \<Rightarrow> float list \<times> (assertion + integrator)" where
  "run s [] = ([], Inr s)"
| "run s (SetVw Vw # cs) = run (setVw s Vw) cs"
| "run s (Solve vi # cs) =
     (case solve s vi of
        Inl a \<Rightarrow> ([], Inl a)
      | Inr (vo, s') \<Rightarrow> (case run s' cs of (outs, r) \<Rightarrow> (vo # outs, r)))"

subsection \<open>The regression configuration\<close>

text \<open>
  The configuration of the specification's concrete regression: all three tables the
  identity function, \<open>kVddt = 1\<close>, \<open>n_snake = 1\<close>, a freshly constructed integrator.
\<close>

definition identity_LUT :: LUT where
  "identity_LUT = LUT (\<lambda>x. x)"

definition regression_integrator :: integrator where
  "regression_integrator = Integrator6581 identity_LUT identity_LUT identity_LUT 1 1"

subsection \<open>A constant input held over consecutive calls\<close>

text \<open>
  \<open>hold s vi n\<close> is the result of the last of \<open>n + 1\<close> consecutive calls
  \<open>solve(vi)\<close> started in state \<open>s\<close>: the value it returns and the state it leaves, or
  the assertion that aborted one of the calls.
\<close>

fun hold :: "integrator \<Rightarrow> float \<Rightarrow> nat \<Rightarrow> assertion + (float \<times> integrator)" where
  "hold s vi 0 = solve s vi"
| "hold s vi (Suc n) =
     (case solve s vi of
        Inl a \<Rightarrow> Inl a
      | Inr (vo, s') \<Rightarrow> hold s' vi n)"

subsection \<open>Further table configurations used as concrete inputs\<close>

text \<open>
  \<open>grounded_integrator\<close>: identity tables for the voltage-controlled resistor, an op-amp
  table that is constantly 0 (below \<open>kVddt = 1\<close>).
\<close>

definition grounded_integrator :: integrator where
  "grounded_integrator = Integrator6581 identity_LUT identity_LUT (LUT (\<lambda>x. 0)) 1 1"


text \<open>
  \<open>settling_integrator\<close>: gate-voltage table constantly 0, identity current table, the
  op-amp table \<open>x - 32768\<close>, \<open>kVddt = 1\<close> and no snake current.
\<close>

definition settling_integrator :: integrator where
  "settling_integrator =
     Integrator6581 (LUT (\<lambda>x. 0)) identity_LUT (LUT (\<lambda>x. x - 32768)) 1 0"

text \<open>
  \<open>clipped_settling_integrator\<close>: as \<open>settling_integrator\<close>, but the current table is 0
  outside \<open>[0, 2\<^sup>1\<^sup>6)\<close> and the op-amp table is 0 from \<open>2\<^sup>1\<^sup>6\<close> on.
\<close>

definition clipped_settling_integrator :: integrator where
  "clipped_settling_integrator =
     Integrator6581 (LUT (\<lambda>x. 0))
       (LUT (\<lambda>x. if 0 \<le> x \<and> x < 65536 then x else 0))
       (LUT (\<lambda>x. if x < 65536 then x - 32768 else 0)) 1 0"


subsection \<open>What two integrators must share for solve to tell no difference\<close>

text \<open>
  \<open>same_inputs s1 s2\<close>: the two objects have the same constants, the same state, the same
  gate-voltage table, current tables that agree on \<open>[0, 2\<^sup>1\<^sup>6)\<close> and op-amp tables
  that agree below \<open>2\<^sup>1\<^sup>6\<close>. Outside these ranges the tables may differ.
\<close>

definition same_inputs :: "integrator \<Rightarrow> integrator \<Rightarrow> bool" where
  "same_inputs s1 s2 \<longleftrightarrow>
     kVddt s1 = kVddt s2 \<and> n_snake s1 = n_snake s2 \<and>
     vx s1 = vx s2 \<and> vc s1 = vc s2 \<and> Vddt_Vw_2 s1 = Vddt_Vw_2 s2 \<and>
     vcr_kVg s1 = vcr_kVg s2 \<and>
     (\<forall>x. 0 \<le> x \<and> x < 65536 \<longrightarrow>
        output_lut (vcr_n_Ids_term s1) x = output_lut (vcr_n_Ids_term s2) x) \<and>
     (\<forall>x. x < 65536 \<longrightarrow> output_lut (opamp_rev s1) x = output_lut (opamp_rev s2) x)"

section \<open>Basic facts\<close>

lemmas solve_locals =
  Vgst_def Vgdt_def Vgst_2_def Vgdt_2_def n_I_snake_def kVg_def Vgs_def Vgd_def
  n_I_vcr_def vc_new_def tmp_def vx_new_def

lemmas regression_defs =
  regression_integrator_def Integrator6581_def identity_LUT_def setVw_def

lemma Vgs_max: "Vgs s vi = max (kVg s vi - vx s) 0"
  by (simp add: Vgs_def max_def)

lemma Vgd_max: "Vgd s vi = max (kVg s vi - vi) 0"
  by (simp add: Vgd_def max_def)

lemma steps_eq_spec_solve:
  "(vx_new s vi - vc_new s vi, s\<lparr>vc := vc_new s vi, vx := vx_new s vi\<rparr>) = spec_solve s vi"
  by (simp add: spec_solve_def Let_def vx_new_def tmp_def vc_new_def n_I_vcr_def Vgs_max
      Vgd_max kVg_def n_I_snake_def Vgst_2_def Vgdt_2_def Vgst_def Vgdt_def power2_eq_square
      add.assoc)

lemma solve_Inr_iff:
  "solve s vi = Inr (vo, s') \<longleftrightarrow>
     vx s < kVddt s \<and> vi < kVddt s \<and> Vgs s vi < 65536 \<and> Vgd s vi < 65536 \<and>
     tmp s vi < 65536 \<and> vo = vx_new s vi - vc_new s vi \<and>
     s' = s\<lparr>vc := vc_new s vi, vx := vx_new s vi\<rparr>"
  by (auto simp: solve_def)

lemma run_append:
  "run s (cs @ ds) =
     (case run s cs of
        (outs, Inl a) \<Rightarrow> (outs, Inl a)
      | (outs, Inr s') \<Rightarrow> (outs @ fst (run s' ds), snd (run s' ds)))"
proof (induction s cs rule: run.induct)
  case (1 s)
  then show ?case by simp
next
  case (2 s Vw cs)
  then show ?case by simp
next
  case (3 s vi cs)
  show ?case
  proof (cases "solve s vi")
    case (Inl a)
    then show ?thesis by simp
  next
    case (Inr p)
    obtain vo s' where p: "p = (vo, s')" by (cases p)
    obtain outs r where r: "run s' cs = (outs, r)" by (cases "run s' cs")
    from 3 [OF Inr p [symmetric]] r Inr p show ?thesis
      by (cases r) (simp_all add: case_prod_beta)
  qed
qed

text \<open>\<open>hold\<close> is the last call of the corresponding \<open>run\<close>.\<close>

lemma hold_run:
  "hold s vi n = Inr (vo, t) \<Longrightarrow>
   \<exists>outs. run s (replicate (Suc n) (Solve vi)) = (outs @ [vo], Inr t)"
proof (induction n arbitrary: s)
  case 0
  then show ?case by simp
next
  case (Suc n)
  from Suc.prems obtain vo1 s1 where st: "solve s vi = Inr (vo1, s1)"
    and h: "hold s1 vi n = Inr (vo, t)"
    by (auto split: sum.splits)
  from Suc.IH [OF h] obtain outs
    where "run s1 (replicate (Suc n) (Solve vi)) = (outs @ [vo], Inr t)" by blast
  with st have "run s (replicate (Suc (Suc n)) (Solve vi)) = ((vo1 # outs) @ [vo], Inr t)"
    by simp
  then show ?case by blast
qed

lemma setVw_fields [simp]:
  "vx (setVw s Vw) = vx s" "vc (setVw s Vw) = vc s" "kVddt (setVw s Vw) = kVddt s"
  "n_snake (setVw s Vw) = n_snake s" "vcr_kVg (setVw s Vw) = vcr_kVg s"
  "vcr_n_Ids_term (setVw s Vw) = vcr_n_Ids_term s" "opamp_rev (setVw s Vw) = opamp_rev s"
  by (simp_all add: setVw_def)

text \<open>The regression call, evaluated once for the concrete statements below.\<close>

lemma regression_solve:
  "solve (setVw regression_integrator 0.5) 0.2 =
     Inr (32768 - 0.805 / 131072,
          (setVw regression_integrator 0.5)\<lparr>vc := 0.805 / 65536, vx := 32768 + 0.805 / 131072\<rparr>)"
  by (simp add: solve_def regression_defs solve_locals)

section \<open>solve: what one call computes\<close>

text \<open>
  C1 (as amended). For every state and every input with \<open>vx < kVddt\<close> and \<open>vi < kVddt\<close>,
  one call \<open>solve(vi)\<close> computes the eight steps of the specification: \<open>kVg\<close> from the
  table at the scaled average of \<open>Vddt_Vw_2\<close> and \<open>Vgdt\<^sup>2\<close>, the clamps
  \<open>Vgs = max (kVg - vx) 0\<close> and \<open>Vgd = max (kVg - vi) 0\<close>, the new \<open>vc\<close>, the new \<open>vx\<close> and
  the returned \<open>vo = vx - vc\<close>. It returns that result exactly when the three domain
  assertions of the code hold (\<open>Vgs < 2\<^sup>1\<^sup>6\<close>, \<open>Vgd < 2\<^sup>1\<^sup>6\<close> and
  \<open>vc / 2 + 32768 < 2\<^sup>1\<^sup>6\<close> for the new \<open>vc\<close>); otherwise the call aborts at the first
  assertion that fails.
\<close>

theorem solve_performs_spec_steps:
  assumes "vx s < kVddt s" and "vi < kVddt s"
  shows "solve s vi =
           (if \<not> Vgs s vi < 65536 then Inl Assert_Vgs
            else if \<not> Vgd s vi < 65536 then Inl Assert_Vgd
            else if \<not> tmp s vi < 65536 then Inl Assert_tmp
            else Inr (spec_solve s vi)) \<and>
         Vgs s vi = max (kVg s vi - vx s) 0 \<and>
         Vgd s vi = max (kVg s vi - vi) 0 \<and>
         tmp s vi = vc (snd (spec_solve s vi)) / 2 + 32768"
proof -
  have "tmp s vi = vc (snd (spec_solve s vi)) / 2 + 32768"
    by (simp add: steps_eq_spec_solve [symmetric] tmp_def)
  with assms show ?thesis
    by (simp add: solve_def steps_eq_spec_solve Vgs_max Vgd_max)
qed

theorem solve_performs_spec_steps_witness:
  "vx (setVw regression_integrator 0.5) < kVddt (setVw regression_integrator 0.5) \<and>
   0.2 < kVddt (setVw regression_integrator 0.5) \<and>
   solve (setVw regression_integrator 0.5) 0.2 =
     Inr (spec_solve (setVw regression_integrator 0.5) 0.2)"
  using solve_performs_spec_steps [of "setVw regression_integrator 0.5" "0.2"]
  by (simp add: regression_defs solve_locals)

text \<open>
  The two preconditions alone do not make the call return the result of the eight
  steps: in the regression configuration after \<open>setVw(0.5)\<close>, the
  input \<open>-100000\<close> is below \<open>kVddt\<close>, the table gives \<open>kVg\<close> above \<open>76000\<close>, and the call
  aborts at \<^verbatim>\<open>assert(Vgs < (1 << 16))\<close>.
\<close>

theorem solve_aborts_counterexample:
  "vx (setVw regression_integrator 0.5) < kVddt (setVw regression_integrator 0.5) \<and>
   - 100000 < kVddt (setVw regression_integrator 0.5) \<and>
   solve (setVw regression_integrator 0.5) (- 100000) = Inl Assert_Vgs \<and>
   solve (setVw regression_integrator 0.5) (- 100000) \<noteq>
     Inr (spec_solve (setVw regression_integrator 0.5) (- 100000))"
  by (simp add: solve_def regression_defs solve_locals)

text \<open>
  C2. In the regression configuration (\<open>kVddt = 1\<close>, \<open>n_snake = 1\<close>, identity tables,
  \<open>vx = vc = 0\<close>), \<open>setVw(0.5)\<close> followed by \<open>solve(0.2)\<close> goes through the values of the
  manual execution: \<open>Vddt_Vw_2 = 0.25\<close>, \<open>Vgst = 1\<close>, \<open>Vgdt = 0.8\<close>, \<open>n_I_snake = 0.36\<close>,
  \<open>kVg = 0.89 / 131072\<close>, \<open>Vgs = kVg\<close>, \<open>Vgd = 0\<close>, \<open>vc = 0.36 / 65536 + kVg\<close>,
  \<open>vx = vc / 2 + 32768\<close>, and returns \<open>vx - vc\<close>, which is \<open>32768 - 0.805 / 131072\<close>.
\<close>

theorem regression_golden_value:
  "(let r = setVw regression_integrator 0.5 in
      Vddt_Vw_2 r = 0.25 \<and> Vgst r = 1 \<and> Vgdt r 0.2 = 0.8 \<and> n_I_snake r 0.2 = 0.36 \<and>
      kVg r 0.2 = 0.89 / 131072 \<and> Vgs r 0.2 = kVg r 0.2 \<and> Vgd r 0.2 = 0 \<and>
      vc_new r 0.2 = 0.36 / 65536 + kVg r 0.2 \<and>
      vx_new r 0.2 = vc_new r 0.2 / 2 + 32768 \<and>
      solve r 0.2 =
        Inr (vx_new r 0.2 - vc_new r 0.2, r\<lparr>vc := vc_new r 0.2, vx := vx_new r 0.2\<rparr>) \<and>
      run regression_integrator [SetVw 0.5, Solve 0.2] =
        ([32768 - 0.805 / 131072],
         Inr (r\<lparr>vc := 0.805 / 65536, vx := 32768 + 0.805 / 131072\<rparr>)))"
  by (simp add: Let_def solve_def regression_defs solve_locals)

text \<open>
  C10. A call \<open>solve(vi)\<close> that returns has assigned only \<open>vc\<close> and \<open>vx\<close>: the cached
  parameter \<open>Vddt_Vw_2\<close>, the constants \<open>kVddt\<close> and \<open>n_snake\<close> and the three tables are
  the same after the call as before it, for every input \<open>vi\<close>.
\<close>

theorem solve_frame:
  assumes "solve s vi = Inr (vo, s')"
  shows "Vddt_Vw_2 s' = Vddt_Vw_2 s \<and> kVddt s' = kVddt s \<and> n_snake s' = n_snake s \<and>
         vcr_kVg s' = vcr_kVg s \<and> vcr_n_Ids_term s' = vcr_n_Ids_term s \<and>
         opamp_rev s' = opamp_rev s \<and> s' = s\<lparr>vc := vc s', vx := vx s'\<rparr>"
  using assms by (simp add: solve_Inr_iff)

theorem solve_frame_witness:
  "(let r = setVw regression_integrator 0.5;
        r' = r\<lparr>vc := 0.805 / 65536, vx := 32768 + 0.805 / 131072\<rparr> in
      solve r 0.2 = Inr (32768 - 0.805 / 131072, r') \<and>
      Vddt_Vw_2 r' = Vddt_Vw_2 r \<and> kVddt r' = kVddt r \<and> n_snake r' = n_snake r \<and>
      vcr_kVg r' = vcr_kVg r \<and> vcr_n_Ids_term r' = vcr_n_Ids_term r \<and>
      opamp_rev r' = opamp_rev r \<and> vc r' \<noteq> vc r \<and> vx r' \<noteq> vx r)"
  using solve_frame [OF regression_solve] regression_solve
  by (simp add: Let_def regression_defs)

section \<open>solve: the operating region\<close>

text \<open>
  C4 (as amended). The clamped overdrive voltages \<open>Vgs\<close> and \<open>Vgd\<close> are never negative.
  They are not bounded above by the preconditions: \<open>Vgs\<close> is below \<open>2\<^sup>1\<^sup>6\<close> exactly when
  \<open>kVg - vx\<close> is, and \<open>Vgd\<close> exactly when \<open>kVg - vi\<close> is; this is what the two assertions
  of the code check, so under the preconditions neither of them fails exactly when both
  differences are below \<open>2\<^sup>1\<^sup>6\<close>.
\<close>

theorem overdrive_bounds:
  "0 \<le> Vgs s vi \<and> 0 \<le> Vgd s vi \<and>
   (Vgs s vi < 65536 \<longleftrightarrow> kVg s vi - vx s < 65536) \<and>
   (Vgd s vi < 65536 \<longleftrightarrow> kVg s vi - vi < 65536) \<and>
   (vx s < kVddt s \<and> vi < kVddt s \<longrightarrow>
      (solve s vi \<noteq> Inl Assert_Vgs \<and> solve s vi \<noteq> Inl Assert_Vgd \<longleftrightarrow>
       kVg s vi - vx s < 65536 \<and> kVg s vi - vi < 65536))"
  by (auto simp: Vgs_def Vgd_def solve_def)

theorem overdrive_bounds_witness:
  "vx (setVw regression_integrator 0.5) < kVddt (setVw regression_integrator 0.5) \<and>
   0.2 < kVddt (setVw regression_integrator 0.5) \<and>
   Vgs (setVw regression_integrator 0.5) 0.2 = 0.89 / 131072 \<and>
   Vgd (setVw regression_integrator 0.5) 0.2 = 0 \<and>
   solve (setVw regression_integrator 0.5) 0.2 \<noteq> Inl Assert_Vgs \<and>
   solve (setVw regression_integrator 0.5) 0.2 \<noteq> Inl Assert_Vgd"
  using overdrive_bounds [of "setVw regression_integrator 0.5" "0.2"]
  by (simp add: regression_defs solve_locals)

text \<open>
  The upper bound fails under the preconditions alone: a freshly constructed regression
  integrator and the input \<open>-70000\<close>, which is below \<open>kVddt = 1\<close>, give \<open>Vgd\<close> above
  \<open>107000\<close>, and the call aborts at \<^verbatim>\<open>assert(Vgd < (1 << 16))\<close>.
\<close>

theorem overdrive_counterexample:
  "vx regression_integrator < kVddt regression_integrator \<and>
   - 70000 < kVddt regression_integrator \<and>
   Vgd regression_integrator (- 70000) = 4900140001 / 131072 + 70000 \<and>
   \<not> Vgd regression_integrator (- 70000) < 65536 \<and>
   solve regression_integrator (- 70000) = Inl Assert_Vgd"
  by (simp add: solve_def regression_defs solve_locals)

lemma run_vx_invariant:
  assumes "vx s < kVddt s"
    and "\<forall>x. x < 65536 \<longrightarrow> output_lut (opamp_rev s) x < kVddt s"
  shows "snd (run s cs) \<noteq> Inl Assert_vx \<and>
         (\<forall>s'. snd (run s cs) = Inr s' \<longrightarrow> vx s' < kVddt s')"
  using assms
proof (induction s cs rule: run.induct)
  case (1 s)
  then show ?case by simp
next
  case (2 s Vw cs)
  then show ?case by simp
next
  case (3 s vi cs)
  show ?case
  proof (cases "solve s vi")
    case (Inl a)
    with "3.prems" show ?thesis by (auto simp: solve_def split: if_splits)
  next
    case (Inr p)
    obtain vo s' where p: "p = (vo, s')" by (cases p)
    from Inr p have s': "s' = s\<lparr>vc := vc_new s vi, vx := vx_new s vi\<rparr>"
      and t: "tmp s vi < 65536"
      by (simp_all add: solve_Inr_iff)
    from s' t "3.prems" have "vx s' < kVddt s'" by (simp add: vx_new_def)
    moreover from s' "3.prems"
    have "\<forall>x. x < 65536 \<longrightarrow> output_lut (opamp_rev s') x < kVddt s'" by simp
    ultimately have "snd (run s' cs) \<noteq> Inl Assert_vx \<and>
         (\<forall>t. snd (run s' cs) = Inr t \<longrightarrow> vx t < kVddt t)"
      using "3.IH" [OF Inr p [symmetric]] by blast
    with Inr p show ?thesis by (simp add: case_prod_beta)
  qed
qed

text \<open>
  C3 (as amended). The new \<open>vx\<close> stored by \<open>solve\<close> is the op-amp table's output at
  \<open>vc / 2 + 32768\<close>, an argument below \<open>2\<^sup>1\<^sup>6\<close>. If every output of the op-amp table on
  arguments below \<open>2\<^sup>1\<^sup>6\<close> is strictly below \<open>kVddt\<close>, then from a state with
  \<open>vx < kVddt\<close> every sequence of \<open>solve\<close> and \<open>setVw\<close> calls keeps the stored \<open>vx\<close>
  strictly below \<open>kVddt\<close>: the assertion on \<open>vx\<close> never fails, and the final state
  satisfies the invariant.
\<close>

theorem vx_stays_below_kVddt:
  assumes "vx s < kVddt s"
    and "\<forall>x. x < 65536 \<longrightarrow> output_lut (opamp_rev s) x < kVddt s"
  shows "snd (run s cs) \<noteq> Inl Assert_vx \<and>
         (\<forall>s'. snd (run s cs) = Inr s' \<longrightarrow> vx s' < kVddt s')"
  using assms by (rule run_vx_invariant)

theorem vx_stays_below_kVddt_witness:
  "vx grounded_integrator < kVddt grounded_integrator \<and>
   snd (run grounded_integrator [SetVw 0.5, Solve 0.2, Solve 0.2]) =
     Inr (grounded_integrator\<lparr>Vddt_Vw_2 := 0.25, vc := 1.61 / 65536, vx := 0\<rparr>) \<and>
   vx (grounded_integrator\<lparr>Vddt_Vw_2 := 0.25, vc := 1.61 / 65536, vx := 0\<rparr>) <
     kVddt (grounded_integrator\<lparr>Vddt_Vw_2 := 0.25, vc := 1.61 / 65536, vx := 0\<rparr>)"
proof -
  have r: "snd (run grounded_integrator [SetVw 0.5, Solve 0.2, Solve 0.2]) =
     Inr (grounded_integrator\<lparr>Vddt_Vw_2 := 0.25, vc := 1.61 / 65536, vx := 0\<rparr>)"
    by (simp add: solve_def grounded_integrator_def regression_defs solve_locals)
  have "vx grounded_integrator < kVddt grounded_integrator"
    and "\<forall>x. x < 65536 \<longrightarrow> output_lut (opamp_rev grounded_integrator) x < kVddt grounded_integrator"
    by (simp_all add: grounded_integrator_def Integrator6581_def)
  from vx_stays_below_kVddt [OF this, of "[SetVw 0.5, Solve 0.2, Solve 0.2]"] r
  show ?thesis by (simp add: grounded_integrator_def Integrator6581_def)
qed

text \<open>
  Without the condition on the table the invariant is not preserved: the regression
  call itself stores \<open>vx = 32768 + 0.805 / 131072\<close>, which is not below \<open>kVddt = 1\<close>, and
  a second \<open>solve\<close> aborts at \<^verbatim>\<open>assert(vx < kVddt)\<close>.
\<close>

theorem vx_invariant_counterexample:
  "vx (setVw regression_integrator 0.5) < kVddt (setVw regression_integrator 0.5) \<and>
   0.2 < kVddt (setVw regression_integrator 0.5) \<and>
   vx_new (setVw regression_integrator 0.5) 0.2 = 32768 + 0.805 / 131072 \<and>
   \<not> vx_new (setVw regression_integrator 0.5) 0.2 < kVddt (setVw regression_integrator 0.5) \<and>
   run regression_integrator [SetVw 0.5, Solve 0.2, Solve 0.2] =
     ([32768 - 0.805 / 131072], Inl Assert_vx)"
  by (simp add: solve_def regression_defs solve_locals)

section \<open>setVw\<close>

text \<open>
  C5. For every state (hence every \<open>kVddt\<close>) and every \<open>Vw\<close>, \<open>setVw(Vw)\<close> sets the
  cached parameter \<open>Vddt_Vw_2\<close> to the square of \<open>kVddt - Vw\<close>.
\<close>

theorem setVw_caches_square: "Vddt_Vw_2 (setVw s Vw) = (kVddt s - Vw)\<^sup>2"
  by (simp add: setVw_def power2_eq_square)

text \<open>
  C6. \<open>setVw\<close> assigns the cached parameter \<open>Vddt_Vw_2\<close> and nothing else: \<open>vx\<close>, \<open>vc\<close>,
  the two constants and the three tables are as before. It is not retroactive: the
  outputs of the calls made before a \<open>setVw\<close> are the same whatever \<open>Vw\<close> it is given and
  whatever calls follow; only later \<open>solve\<close> calls can see it.
\<close>

theorem setVw_frame:
  "vx (setVw s Vw) = vx s \<and> vc (setVw s Vw) = vc s \<and>
   kVddt (setVw s Vw) = kVddt s \<and> n_snake (setVw s Vw) = n_snake s \<and>
   vcr_kVg (setVw s Vw) = vcr_kVg s \<and> vcr_n_Ids_term (setVw s Vw) = vcr_n_Ids_term s \<and>
   opamp_rev (setVw s Vw) = opamp_rev s \<and>
   setVw s Vw = s\<lparr>Vddt_Vw_2 := Vddt_Vw_2 (setVw s Vw)\<rparr> \<and>
   prefix (fst (run s cs)) (fst (run s (cs @ SetVw Vw # cs')))"
proof -
  have "prefix (fst (run s cs)) (fst (run s (cs @ SetVw Vw # cs')))"
    by (cases "run s cs" rule: prod.exhaust [case_names Pair])
      (auto simp: run_append split: sum.splits)
  then show ?thesis by (simp add: setVw_def)
qed

section \<open>Determinism\<close>

lemma same_inputs_locals:
  assumes "same_inputs s1 s2"
  shows "kVg s1 vi = kVg s2 vi" "Vgs s1 vi = Vgs s2 vi" "Vgd s1 vi = Vgd s2 vi"
    "n_I_snake s1 vi = n_I_snake s2 vi"
  using assms
  by (simp_all add: same_inputs_def kVg_def Vgs_def Vgd_def n_I_snake_def Vgst_2_def
      Vgdt_2_def Vgst_def Vgdt_def)

lemma Vgs_nonneg: "0 \<le> Vgs s vi"
  by (simp add: Vgs_def)
lemma Vgd_nonneg: "0 \<le> Vgd s vi"
  by (simp add: Vgd_def)

lemma same_inputs_vc_new:
  assumes si: "same_inputs s1 s2" and "Vgs s1 vi < 65536" "Vgd s1 vi < 65536"
  shows "vc_new s1 vi = vc_new s2 vi"
proof -
  from si have T: "\<And>x. 0 \<le> x \<Longrightarrow> x < 65536 \<Longrightarrow>
      output_lut (vcr_n_Ids_term s1) x = output_lut (vcr_n_Ids_term s2) x"
    by (simp add: same_inputs_def)
  have "n_I_vcr s1 vi = n_I_vcr s2 vi"
    using T [OF Vgs_nonneg assms(2)] T [OF Vgd_nonneg assms(3)]
    by (simp add: n_I_vcr_def same_inputs_locals [OF si, symmetric])
  moreover from si have "vc s1 = vc s2" by (simp add: same_inputs_def)
  ultimately show ?thesis by (simp add: vc_new_def same_inputs_locals [OF si])
qed

lemma same_inputs_solve:
  assumes si: "same_inputs s1 s2"
  shows "case (solve s1 vi, solve s2 vi) of
           (Inl a1, Inl a2) \<Rightarrow> a1 = a2
         | (Inr (vo1, t1), Inr (vo2, t2)) \<Rightarrow> vo1 = vo2 \<and> same_inputs t1 t2
         | _ \<Rightarrow> False"
proof -
  from si have sc: "vx s1 = vx s2" "kVddt s1 = kVddt s2" by (simp_all add: same_inputs_def)
  note loc = same_inputs_locals [OF si, of vi]
  show ?thesis
  proof (cases "vx s1 < kVddt s1 \<and> vi < kVddt s1 \<and> Vgs s1 vi < 65536 \<and> Vgd s1 vi < 65536")
    case False
    then show ?thesis using sc loc by (auto simp: solve_def)
  next
    case True
    then have vcn: "vc_new s1 vi = vc_new s2 vi" by (simp add: same_inputs_vc_new [OF si])
    then have t: "tmp s1 vi = tmp s2 vi" by (simp add: tmp_def)
    show ?thesis
    proof (cases "tmp s1 vi < 65536")
      case False
      with True sc loc t show ?thesis by (simp add: solve_def)
    next
      case lt: True
      from si lt have "output_lut (opamp_rev s1) (tmp s1 vi) = output_lut (opamp_rev s2) (tmp s1 vi)"
        by (simp add: same_inputs_def)
      then have vxn: "vx_new s1 vi = vx_new s2 vi" by (simp add: vx_new_def t)
      from si have "same_inputs (s1\<lparr>vc := vc_new s2 vi, vx := vx_new s2 vi\<rparr>)
          (s2\<lparr>vc := vc_new s2 vi, vx := vx_new s2 vi\<rparr>)"
        by (simp add: same_inputs_def)
      with True lt sc loc t vcn vxn show ?thesis by (simp add: solve_def)
    qed
  qed
qed

lemma same_inputs_setVw: "same_inputs s1 s2 \<Longrightarrow> same_inputs (setVw s1 Vw) (setVw s2 Vw)"
  by (simp add: same_inputs_def setVw_def)

lemma same_inputs_run:
  "same_inputs s1 s2 \<Longrightarrow>
   fst (run s1 cs) = fst (run s2 cs) \<and>
   (case (snd (run s1 cs), snd (run s2 cs)) of
      (Inl a1, Inl a2) \<Rightarrow> a1 = a2
    | (Inr t1, Inr t2) \<Rightarrow> same_inputs t1 t2
    | _ \<Rightarrow> False)"
proof (induction cs arbitrary: s1 s2)
  case Nil
  then show ?case by simp
next
  case (Cons c cs)
  show ?case
  proof (cases c)
    case (SetVw Vw)
    with Cons.IH [OF same_inputs_setVw [OF Cons.prems]] show ?thesis by simp
  next
    case (Solve vi)
    from same_inputs_solve [OF Cons.prems, of vi] show ?thesis
    proof (cases "solve s1 vi")
      case (Inl a1)
      with same_inputs_solve [OF Cons.prems, of vi] Solve show ?thesis
        by (cases "solve s2 vi") simp_all
    next
      case (Inr p1)
      obtain vo1 t1 where p1: "p1 = (vo1, t1)" by (cases p1)
      from Inr p1 same_inputs_solve [OF Cons.prems, of vi]
      obtain t2 where s2: "solve s2 vi = Inr (vo1, t2)" and si: "same_inputs t1 t2"
        by (cases "solve s2 vi") auto
      from Cons.IH [OF si] Inr p1 s2 Solve show ?thesis
        by (simp add: case_prod_beta)
    qed
  qed
qed

lemma run_frame:
  "snd (run s cs) = Inr t \<Longrightarrow>
   t = s\<lparr>Vddt_Vw_2 := Vddt_Vw_2 t, vx := vx t, vc := vc t\<rparr>"
proof (induction s cs rule: run.induct)
  case (1 s)
  then show ?case by auto
next
  case (2 s Vw cs)
  then have "t = (setVw s Vw)\<lparr>Vddt_Vw_2 := Vddt_Vw_2 t, vx := vx t, vc := vc t\<rparr>" by simp
  then show ?case by (simp add: setVw_def)
next
  case (3 s vi cs)
  show ?case
  proof (cases "solve s vi")
    case (Inl a)
    with "3.prems" show ?thesis by simp
  next
    case (Inr p)
    obtain vo s' where p: "p = (vo, s')" by (cases p)
    from "3.prems" Inr p have "snd (run s' cs) = Inr t" by (simp add: case_prod_beta)
    from "3.IH" [OF Inr p [symmetric] this]
    have "t = s'\<lparr>Vddt_Vw_2 := Vddt_Vw_2 t, vx := vx t, vc := vc t\<rparr>" .
    moreover from Inr p have "s' = s\<lparr>vc := vc_new s vi, vx := vx_new s vi\<rparr>"
      by (simp add: solve_Inr_iff)
    ultimately have "t = s\<lparr>vc := vc_new s vi, vx := vx_new s vi\<rparr>
        \<lparr>Vddt_Vw_2 := Vddt_Vw_2 t, vx := vx t, vc := vc t\<rparr>" by simp
    then show ?thesis by simp
  qed
qed

text \<open>
  C7. \<open>solve\<close> has no hidden input, and it reads less than the whole object. Let two
  integrators have the same constants \<open>kVddt\<close> and \<open>n_snake\<close>, the same state \<open>vx\<close>, \<open>vc\<close>,
  \<open>Vddt_Vw_2\<close>, the same gate-voltage table, current tables that agree on
  \<open>[0, 2\<^sup>1\<^sup>6)\<close> and op-amp tables that agree below \<open>2\<^sup>1\<^sup>6\<close> (equal table contents
  in particular). Then the same sequence of calls gives the same sequence of outputs in
  both, and the two runs end in the same abort or in final states with the same \<open>vx\<close>,
  \<open>vc\<close> and \<open>Vddt_Vw_2\<close>, everything else in each object being as it was. (The tables
  are consulted only after the assertions that guard their arguments.)
\<close>

theorem solve_deterministic:
  assumes "kVddt s1 = kVddt s2" "n_snake s1 = n_snake s2"
    and "vx s1 = vx s2" "vc s1 = vc s2" "Vddt_Vw_2 s1 = Vddt_Vw_2 s2"
    and "vcr_kVg s1 = vcr_kVg s2"
    and "\<forall>x. 0 \<le> x \<and> x < 65536 \<longrightarrow>
           output_lut (vcr_n_Ids_term s1) x = output_lut (vcr_n_Ids_term s2) x"
    and "\<forall>x. x < 65536 \<longrightarrow> output_lut (opamp_rev s1) x = output_lut (opamp_rev s2) x"
  shows "fst (run s1 cs) = fst (run s2 cs) \<and>
         (case (snd (run s1 cs), snd (run s2 cs)) of
            (Inl a1, Inl a2) \<Rightarrow> a1 = a2
          | (Inr t1, Inr t2) \<Rightarrow>
              t1 = s1\<lparr>Vddt_Vw_2 := Vddt_Vw_2 t1, vx := vx t1, vc := vc t1\<rparr> \<and>
              t2 = s2\<lparr>Vddt_Vw_2 := Vddt_Vw_2 t1, vx := vx t1, vc := vc t1\<rparr>
          | _ \<Rightarrow> False)"
proof -
  from assms have si: "same_inputs s1 s2" by (simp add: same_inputs_def)
  note r = same_inputs_run [OF si, of cs]
  show ?thesis
  proof (cases "snd (run s1 cs)")
    case (Inl a1)
    with r show ?thesis by (cases "snd (run s2 cs)") simp_all
  next
    case (Inr t1)
    with r obtain t2 where t2: "snd (run s2 cs) = Inr t2" and st: "same_inputs t1 t2"
      by (cases "snd (run s2 cs)") auto
    from st have eq: "Vddt_Vw_2 t2 = Vddt_Vw_2 t1" "vx t2 = vx t1" "vc t2 = vc t1"
      by (simp_all add: same_inputs_def)
    from run_frame [OF Inr]
    have f1: "t1 = s1\<lparr>Vddt_Vw_2 := Vddt_Vw_2 t1, vx := vx t1, vc := vc t1\<rparr>" .
    from run_frame [OF t2] eq
    have f2: "t2 = s2\<lparr>Vddt_Vw_2 := Vddt_Vw_2 t1, vx := vx t1, vc := vc t1\<rparr>" by simp
    from r Inr t2 f1 f2 show ?thesis by simp
  qed
qed

theorem solve_deterministic_witness:
  "settling_integrator \<noteq> clipped_settling_integrator \<and>
   run settling_integrator (map Solve [- 1, - 1, - 1]) =
     ([1 / 2, 3 / 4, 7 / 8], Inr (settling_integrator\<lparr>vx := - (7 / 8), vc := - (7 / 4)\<rparr>)) \<and>
   run clipped_settling_integrator (map Solve [- 1, - 1, - 1]) =
     ([1 / 2, 3 / 4, 7 / 8],
      Inr (clipped_settling_integrator\<lparr>vx := - (7 / 8), vc := - (7 / 4)\<rparr>))"
proof -
  have ne: "settling_integrator \<noteq> clipped_settling_integrator"
  proof
    assume "settling_integrator = clipped_settling_integrator"
    then have "output_lut (opamp_rev settling_integrator) 65536 =
        output_lut (opamp_rev clipped_settling_integrator) 65536" by simp
    then show False
      by (simp add: settling_integrator_def clipped_settling_integrator_def Integrator6581_def)
  qed
  have r1: "run settling_integrator (map Solve [- 1, - 1, - 1]) =
     ([1 / 2, 3 / 4, 7 / 8], Inr (settling_integrator\<lparr>vx := - (7 / 8), vc := - (7 / 4)\<rparr>))"
    by (simp add: solve_def settling_integrator_def regression_defs solve_locals)
  have "fst (run settling_integrator (map Solve [- 1, - 1, - 1])) =
          fst (run clipped_settling_integrator (map Solve [- 1, - 1, - 1])) \<and>
        (case (snd (run settling_integrator (map Solve [- 1, - 1, - 1])),
               snd (run clipped_settling_integrator (map Solve [- 1, - 1, - 1]))) of
            (Inl a1, Inl a2) \<Rightarrow> a1 = a2
          | (Inr t1, Inr t2) \<Rightarrow>
              t1 = settling_integrator\<lparr>Vddt_Vw_2 := Vddt_Vw_2 t1, vx := vx t1, vc := vc t1\<rparr> \<and>
              t2 = clipped_settling_integrator\<lparr>Vddt_Vw_2 := Vddt_Vw_2 t1, vx := vx t1, vc := vc t1\<rparr>
          | _ \<Rightarrow> False)"
    by (rule solve_deterministic)
      (simp_all add: settling_integrator_def clipped_settling_integrator_def
        Integrator6581_def identity_LUT_def)
  note d = this
  obtain o2 e2 where r2: "run clipped_settling_integrator (map Solve [- 1, - 1, - 1]) = (o2, e2)"
    by (cases "run clipped_settling_integrator (map Solve [- 1, - 1, - 1])")
  from d have o2: "o2 = [1 / 2, 3 / 4, 7 / 8]"
    unfolding r1 r2 by simp
  from d have "e2 = Inr (clipped_settling_integrator\<lparr>Vddt_Vw_2 := 0, vx := - (7 / 8), vc := - (7 / 4)\<rparr>)"
    unfolding r1 r2 by (cases e2) (simp_all add: settling_integrator_def Integrator6581_def)
  then have e2: "e2 = Inr (clipped_settling_integrator\<lparr>vx := - (7 / 8), vc := - (7 / 4)\<rparr>)"
    by (simp add: clipped_settling_integrator_def Integrator6581_def)
  note r2 = r2 [unfolded o2 e2]
  from ne r1 r2 show ?thesis by (simp only: simp_thms)
qed

section \<open>Symmetry of the currents\<close>

text \<open>
  C8 (as amended). Exchange the voltage on the \<open>vx\<close> side with the voltage on the \<open>vi\<close>
  side of one call (the cached \<open>Vddt_Vw_2\<close> of the second call may differ). The snake
  current is always negated. When the gate voltage \<open>kVg\<close> looked up is the same in both
  calls, the current of the voltage-controlled resistor is negated too, hence also the
  change of \<open>vc\<close> made by the call; and if both calls return, their outputs are sign
  mirrors exactly when the two new \<open>vx\<close> add up to twice the old \<open>vc\<close>.
\<close>

theorem exchange_negates_currents:
  "n_I_snake (s\<lparr>vx := b, Vddt_Vw_2 := W\<rparr>) a = - n_I_snake (s\<lparr>vx := a\<rparr>) b \<and>
   (kVg (s\<lparr>vx := b, Vddt_Vw_2 := W\<rparr>) a = kVg (s\<lparr>vx := a\<rparr>) b \<longrightarrow>
      n_I_vcr (s\<lparr>vx := b, Vddt_Vw_2 := W\<rparr>) a = - n_I_vcr (s\<lparr>vx := a\<rparr>) b \<and>
      vc_new (s\<lparr>vx := b, Vddt_Vw_2 := W\<rparr>) a - vc s = - (vc_new (s\<lparr>vx := a\<rparr>) b - vc s) \<and>
      (\<forall>vo1 t1 vo2 t2.
         solve (s\<lparr>vx := a\<rparr>) b = Inr (vo1, t1) \<and>
         solve (s\<lparr>vx := b, Vddt_Vw_2 := W\<rparr>) a = Inr (vo2, t2) \<longrightarrow>
           vc t2 - vc s = - (vc t1 - vc s) \<and>
           (vo2 = - vo1 \<longleftrightarrow> vx t1 + vx t2 = 2 * vc s)))"
proof -
  let ?s1 = "s\<lparr>vx := a\<rparr>" and ?s2 = "s\<lparr>vx := b, Vddt_Vw_2 := W\<rparr>"
  have snake: "n_I_snake ?s2 a = - n_I_snake ?s1 b"
    by (simp add: n_I_snake_def Vgst_2_def Vgdt_2_def Vgst_def Vgdt_def algebra_simps)
  have rest: "n_I_vcr ?s2 a = - n_I_vcr ?s1 b \<and>
      vc_new ?s2 a - vc s = - (vc_new ?s1 b - vc s) \<and>
      (\<forall>vo1 t1 vo2 t2.
         solve ?s1 b = Inr (vo1, t1) \<and> solve ?s2 a = Inr (vo2, t2) \<longrightarrow>
           vc t2 - vc s = - (vc t1 - vc s) \<and>
           (vo2 = - vo1 \<longleftrightarrow> vx t1 + vx t2 = 2 * vc s))"
    if g: "kVg ?s2 a = kVg ?s1 b"
  proof -
    have gs: "Vgs ?s2 a = Vgd ?s1 b"
      using g by (simp add: Vgs_def Vgd_def)
    have gd: "Vgd ?s2 a = Vgs ?s1 b"
      using g by (simp add: Vgs_def Vgd_def)
    have vcr: "n_I_vcr ?s2 a = - n_I_vcr ?s1 b"
      by (simp add: n_I_vcr_def gs gd)
    from snake vcr have dvc: "vc_new ?s2 a - vc s = - (vc_new ?s1 b - vc s)"
      by (simp add: vc_new_def)
    have "vc t2 - vc s = - (vc t1 - vc s) \<and> (vo2 = - vo1 \<longleftrightarrow> vx t1 + vx t2 = 2 * vc s)"
      if r: "solve ?s1 b = Inr (vo1, t1) \<and> solve ?s2 a = Inr (vo2, t2)" for vo1 t1 vo2 t2
    proof -
      from r have 1: "vc t1 = vc_new ?s1 b" "vo1 = vx t1 - vc t1"
        and 2: "vc t2 = vc_new ?s2 a" "vo2 = vx t2 - vc t2"
        by (simp_all add: solve_Inr_iff)
      from dvc 1 2 have d: "vc t2 - vc s = - (vc t1 - vc s)" by simp
      from d 1 2 have "vo2 = - vo1 \<longleftrightarrow> vx t1 + vx t2 = 2 * vc s" by auto
      with d show ?thesis by simp
    qed
    with vcr dvc show ?thesis by blast
  qed
  from snake rest show ?thesis by blast
qed

text \<open>
  With the identity tables of the regression configuration, \<open>Vw = 0.7\<close> for the first
  call and \<open>Vw = -0.1\<close> for the second give the same gate voltage for the exchanged
  voltages \<open>-0.2\<close> and \<open>-0.6\<close>; both currents are negated and the outputs are not sign
  mirrors. With the op-amp table constantly 0 the same calls return sign mirrors.
\<close>

theorem exchange_negates_currents_witness:
  "(let s1 = (setVw regression_integrator 0.7)\<lparr>vx := - 0.2\<rparr>;
        s2 = (setVw regression_integrator 0.7)\<lparr>vx := - 0.6, Vddt_Vw_2 := 1.21\<rparr>;
        g1 = (setVw grounded_integrator 0.7)\<lparr>vx := - 0.2\<rparr>;
        g2 = (setVw grounded_integrator 0.7)\<lparr>vx := - 0.6, Vddt_Vw_2 := 1.21\<rparr> in
      Vddt_Vw_2 (setVw regression_integrator (- 0.1)) = 1.21 \<and>
      kVg s1 (- 0.6) = 1.325 / 65536 \<and> kVg s2 (- 0.2) = 1.325 / 65536 \<and>
      n_I_snake s1 (- 0.6) = - 1.12 \<and> n_I_snake s2 (- 0.2) = 1.12 \<and>
      n_I_vcr s1 (- 0.6) = - 0.4 \<and> n_I_vcr s2 (- 0.2) = 0.4 \<and>
      solve s1 (- 0.6) =
        Inr (26843709447 / 819200,
             s1\<lparr>vc := - (163847 / 409600), vx := 26843381753 / 819200\<rparr>) \<and>
      solve s2 (- 0.2) =
        Inr (26843381753 / 819200,
             s2\<lparr>vc := 163847 / 409600, vx := 26843709447 / 819200\<rparr>) \<and>
      solve g1 (- 0.6) = Inr (163847 / 409600, g1\<lparr>vc := - (163847 / 409600), vx := 0\<rparr>) \<and>
      solve g2 (- 0.2) = Inr (- (163847 / 409600), g2\<lparr>vc := 163847 / 409600, vx := 0\<rparr>))"
  using exchange_negates_currents
    [where s = "setVw regression_integrator 0.7" and a = "- 0.2" and b = "- 0.6" and W = "1.21"]
  by (simp add: Let_def solve_def grounded_integrator_def regression_defs solve_locals)

text \<open>
  The outputs are not sign mirrors in general. In the regression configuration after
  \<open>setVw(0.5)\<close>: with \<open>vx = 0\<close> and input \<open>0.2\<close> the call returns
  \<open>32768 - 0.805 / 131072\<close>; with the two voltages exchanged (\<open>vx = 0.2\<close>, input \<open>0\<close>) it
  returns \<open>32768 + 0.985 / 131072\<close>; with the input negated (\<open>vx = 0\<close>, input \<open>-0.2\<close>) it
  returns \<open>32768 + 0.1 + 0.11 / 32768\<close>. Neither is the negation of the first.
\<close>

theorem output_mirror_counterexample:
  "solve ((setVw regression_integrator 0.5)\<lparr>vx := 0\<rparr>) 0.2 =
     Inr (32768 - 0.805 / 131072,
          (setVw regression_integrator 0.5)\<lparr>vx := 32768 + 0.805 / 131072, vc := 0.805 / 65536\<rparr>) \<and>
   solve ((setVw regression_integrator 0.5)\<lparr>vx := 0.2\<rparr>) 0 =
     Inr (32768 + 0.985 / 131072,
          (setVw regression_integrator 0.5)\<lparr>vx := 32768 - 0.985 / 131072, vc := - (0.985 / 65536)\<rparr>) \<and>
   solve ((setVw regression_integrator 0.5)\<lparr>vx := 0\<rparr>) (- 0.2) =
     Inr (32768 + 0.1 + 0.11 / 32768,
          (setVw regression_integrator 0.5)\<lparr>vx := 32768 - 0.1 - 0.11 / 32768,
             vc := - (0.2 + 0.11 / 16384)\<rparr>) \<and>
   32768 + 0.985 / 131072 \<noteq> - (32768 - 0.805 / 131072 :: real) \<and>
   32768 + 0.1 + 0.11 / 32768 \<noteq> - (32768 - 0.805 / 131072 :: real)"
  by (simp add: solve_def regression_defs solve_locals)

section \<open>Settling under a constant input\<close>
























end
